theory Spec2Isabelle
  imports Main
begin

section \<open>RecordView: the console's list-item renderer\<close>

text \<open>
  A shallow embedding of \<^verbatim>\<open>atom-ide-console/lib/ui/RecordView.js\<close>. JavaScript values
  that the component only compares by reference carry an explicit address; the one object
  the component mutates (the expansion state) lives in an explicit store; a thrown error
  is a value; callbacks into the host (\<^verbatim>\<open>onHeightChange\<close>) append to a log.
\<close>

subsection \<open>JavaScript values and the object store\<close>

type_synonym ref = nat

text \<open>
  The values an entry of the expansion-state object can hold. Numbers are restricted to
  integers; an object is a reference into the store.
\<close>

datatype jsval = JUndefined | JNull | JBool bool | JNum int | JStr string | JRef ref

text \<open>JavaScript's ToBoolean, as used by \<^verbatim>\<open>!x\<close>.\<close>

fun truthy :: "jsval \<Rightarrow> bool" where
  "truthy JUndefined = False"
| "truthy JNull = False"
| "truthy (JBool b) = b"
| "truthy (JNum n) = (n \<noteq> 0)"
| "truthy (JStr s) = (s \<noteq> [])"
| "truthy (JRef a) = True"

type_synonym jsobject = "string \<rightharpoonup> jsval"

text \<open>The store: the object at address \<open>a\<close> is \<open>h ! a\<close>; allocation appends.\<close>

type_synonym heap = "jsobject list"

text \<open>\<^verbatim>\<open>o[k]\<close>: a missing property reads as \<^verbatim>\<open>undefined\<close>.\<close>

definition get_prop :: "heap \<Rightarrow> ref \<Rightarrow> string \<Rightarrow> jsval" where
  "get_prop h a k = (case (h ! a) k of None \<Rightarrow> JUndefined | Some v \<Rightarrow> v)"

text \<open>\<^verbatim>\<open>o[k] = v\<close>\<close>

definition set_prop :: "heap \<Rightarrow> ref \<Rightarrow> string \<Rightarrow> jsval \<Rightarrow> heap" where
  "set_prop h a k v = h[a := (h ! a)(k \<mapsto> v)]"

text \<open>\<^verbatim>\<open>{}\<close>: a new object with no property, at an address not used before.\<close>

definition new_object :: "heap \<Rightarrow> ref \<times> heap" where
  "new_object h = (length h, h @ [Map.empty])"

text \<open>
  A value that is compared by reference (\<^verbatim>\<open>===\<close> on objects and functions): its address
  and what it denotes.
\<close>

datatype 'a ptr = Ptr (addr: ref) (deref: 'a)

definition strict_eq :: "'a ptr \<Rightarrow> 'a ptr \<Rightarrow> bool" where
  "strict_eq x y = (addr x = addr y)"

text \<open>\<^verbatim>\<open>'child' + index\<close>: the decimal numeral of a non-negative integer.\<close>

definition digit_char :: "nat \<Rightarrow> char" where
  "digit_char d = ''0123456789'' ! d"

function string_of_nat :: "nat \<Rightarrow> string" where
  "string_of_nat n =
     (if n < 10 then [digit_char n]
      else string_of_nat (n div 10) @ [digit_char (n mod 10)])"
  by pat_completeness auto
termination
  by (relation "measure id") auto

declare string_of_nat.simps [simp del]

subsection \<open>The record and its evaluation data\<close>

text \<open>\<^verbatim>\<open>object.expression\<close>: \<open>getValue\<close> is what the method \<^verbatim>\<open>getValue()\<close> returns.\<close>

record expression =
  reference :: int
  getValue :: string

text \<open>An element of \<^verbatim>\<open>record.data.objects\<close>. \<open>None\<close> is \<^verbatim>\<open>null\<close> or \<^verbatim>\<open>undefined\<close>.\<close>

record console_object =
  obj_description :: "string option"
  obj_type :: "string option"
  obj_expression :: expression

record record_data =
  data_type :: "string option"
  data_objects :: "console_object list option"

text \<open>\<^verbatim>\<open>timestamp\<close> is a Date, read as its time value in milliseconds.\<close>

record console_record =
  rec_kind :: string
  rec_level :: "string option"
  rec_text :: "string option"
  rec_format :: "string option"
  rec_data :: "record_data option"
  rec_sourceId :: string
  rec_sourceName :: "string option"
  rec_timestamp :: "int option"
  rec_repeatCount :: int
  rec_incomplete :: bool

text \<open>An Executor or a SourceInfo: \<open>getProperties\<close> is the identity of its function.\<close>

record source =
  getProperties :: ref

datatype ('a, 'b) jsfun = JsFun (fn_id: ref) (call: "'a \<Rightarrow> 'b")

record props =
  the_record :: "console_record ptr"
  showSourceLabel :: bool
  getExecutor :: "(string, source option) jsfun"
  getProvider :: "(string, source option) jsfun"
  onHeightChange :: ref
  expansionStateId :: ref

subsection \<open>Icon and highlight class\<close>

fun getHighlightClassName :: "string option \<Rightarrow> string" where
  "getHighlightClassName level =
     (if level = Some ''info'' then ''highlight-info''
      else if level = Some ''success'' then ''highlight-success''
      else if level = Some ''warning'' then ''highlight-warning''
      else if level = Some ''error'' then ''highlight-error''
      else ''highlight'')"

text \<open>Falling off the end of the function returns \<^verbatim>\<open>undefined\<close>: \<open>None\<close>.\<close>

definition getIconName :: "console_record \<Rightarrow> string option" where
  "getIconName r =
     (if rec_kind r = ''request'' then Some ''chevron-right''
      else if rec_kind r = ''response'' then Some ''arrow-small-left''
      else if rec_level r = Some ''info'' then Some ''info''
      else if rec_level r = Some ''success'' then Some ''check''
      else if rec_level r = Some ''warning'' then Some ''alert''
      else if rec_level r = Some ''error'' then Some ''stop''
      else None)"

subsection \<open>Rendered elements\<close>

text \<open>
  The text parser \<^verbatim>\<open>parseText\<close> and the widgets are collaborators outside this file:
  \<open>parseText\<close> is a parameter, with results of type \<open>'n\<close>, and a widget is the element
  the component creates for it, with the props it passes.
\<close>

record segment_props =
  seg_key :: string
  seg_style :: "(string \<times> string) list"
  seg_content :: string

record 'n segment_span =
  span_key :: string
  span_style :: "(string \<times> string) list"
  span_className :: string
  span_children :: 'n

definition AnsiRenderSegment :: "(string \<Rightarrow> 'n) \<Rightarrow> segment_props \<Rightarrow> 'n segment_span" where
  "AnsiRenderSegment parseText sp =
     \<lparr>span_key = seg_key sp, span_style = seg_style sp,
      span_className = ''nuclide-console-default-text-colors'',
      span_children = parseText (seg_content sp)\<rparr>"

text \<open>What \<^verbatim>\<open>getComponent\<close> returns: the wrapper around TextRenderer, or SimpleValueComponent.\<close>

datatype value_component = TextRendererOfResult | SimpleValueComponent

definition getComponent :: "string option \<Rightarrow> value_component" where
  "getComponent ty = (if ty = Some ''text'' then TextRendererOfResult else SimpleValueComponent)"

text \<open>
  The three shapes of an \<^verbatim>\<open>evaluationResult\<close> prop: built from an object of the sequence,
  built for a simple value, or \<^verbatim>\<open>record.data\<close> itself (possibly null).
\<close>

datatype evaluation_result =
    ObjectResult (er_description: "string option") (er_type: string) (er_objectId: expression)
  | ValueResult (vr_type: string) (vr_value: string)
  | DataResult "record_data option"

datatype 'n pre_child = Raw string | Parsed 'n

text \<open>
  \<open>SimpleValue expression evaluationResult\<close>;
  \<open>LazyNestedValue className evaluationResult fetchChildren simpleValueComponent
  shouldCacheChildren expansionStateId\<close>;
  \<open>MultipleObjects children\<close> is the span of class \<^verbatim>\<open>console-multiple-objects\<close>.
\<close>

datatype 'n element =
    is_Pre: Pre "'n pre_child"
  | is_Ansi: Ansi "segment_props \<Rightarrow> 'n segment_span" string
  | is_SimpleValue: SimpleValue "expression option" evaluation_result
  | is_LazyNestedValue:
      LazyNestedValue string evaluation_result "ref option" value_component bool jsval
  | is_MultipleObjects: MultipleObjects "'n element list"

datatype error = NullthrowsError

subsection \<open>Nested values\<close>

text \<open>
  \<^verbatim>\<open>if (!expansionStateId[key]) { expansionStateId[key] = {}; }\<close>
\<close>

definition init_slot :: "heap \<Rightarrow> ref \<Rightarrow> string \<Rightarrow> heap" where
  "init_slot h e k =
     (if \<not> truthy (get_prop h e k)
      then (case new_object h of (a, h1) \<Rightarrow> set_prop h1 e k (JRef a))
      else h)"

definition expansionStateKey :: "nat \<Rightarrow> string" where
  "expansionStateKey index = ''child'' @ string_of_nat index"

text \<open>The body of the loop over \<^verbatim>\<open>objects.entries()\<close>, and the loop.\<close>

definition render_object ::
  "ref \<Rightarrow> ref option \<Rightarrow> nat \<Rightarrow> console_object \<Rightarrow> heap \<Rightarrow> 'n element \<times> heap" where
  "render_object e fetchChildren index object h =
     (let evaluationResult =
            ObjectResult (obj_description object)
              (case obj_type object of None \<Rightarrow> [] | Some t \<Rightarrow> t)
              (obj_expression object);
          simpleValueComponent = getComponent (obj_type object);
          h1 = init_slot h e (expansionStateKey index)
      in if reference (obj_expression object) = 0
         then (SimpleValue None
                 (ValueResult (case obj_type object of None \<Rightarrow> ''text'' | Some t \<Rightarrow> t)
                    (getValue (obj_expression object))), h1)
         else (LazyNestedValue ''console-lazy-nested-value'' evaluationResult fetchChildren
                 simpleValueComponent True (get_prop h1 e (expansionStateKey index)), h1))"

fun render_objects ::
  "ref \<Rightarrow> ref option \<Rightarrow> nat \<Rightarrow> console_object list \<Rightarrow> 'n element list \<Rightarrow> heap
   \<Rightarrow> 'n element list \<times> heap" where
  "render_objects e fetchChildren index [] children h = (children, h)"
| "render_objects e fetchChildren index (object # rest) children h =
     (case render_object e fetchChildren index object h of
        (child, h1) \<Rightarrow> render_objects e fetchChildren (Suc index) rest (children @ [child]) h1)"

definition renderNestedValueComponent ::
  "props \<Rightarrow> source option \<Rightarrow> heap \<Rightarrow> (error + 'n element) \<times> heap" where
  "renderNestedValueComponent p provider h =
     (let r = deref (the_record p);
          fetchChildren = (case provider of None \<Rightarrow> None | Some s \<Rightarrow> Some (getProperties s));
          ty = (case rec_data r of None \<Rightarrow> None | Some d \<Rightarrow> data_type d)
      in if ty = Some ''objects''
         then (case (case rec_data r of None \<Rightarrow> None | Some d \<Rightarrow> data_objects d) of
                 None \<Rightarrow> (Inl NullthrowsError, h)
               | Some objects \<Rightarrow>
                   (case render_objects (expansionStateId p) fetchChildren 0 objects [] h of
                      (children, h1) \<Rightarrow> (Inr (MultipleObjects children), h1)))
         else (Inr (LazyNestedValue ''console-lazy-nested-value'' (DataResult (rec_data r))
                      fetchChildren (getComponent ty) True (JRef (expansionStateId p))), h))"

subsection \<open>Content\<close>

text \<open>\<^verbatim>\<open>record.text || ' '\<close>\<close>

definition text_or_space :: "string option \<Rightarrow> string" where
  "text_or_space t = (case t of None \<Rightarrow> '' '' | Some s \<Rightarrow> if s = [] then '' '' else s)"

definition renderContent ::
  "(string \<Rightarrow> 'n) \<Rightarrow> props \<Rightarrow> heap \<Rightarrow> (error + 'n element) \<times> heap" where
  "renderContent parseText p h =
     (let r = deref (the_record p)
      in if rec_kind r = ''request'' then (Inr (Pre (Raw (text_or_space (rec_text r)))), h)
         else if rec_kind r = ''response''
           then renderNestedValueComponent p (call (getExecutor p) (rec_sourceId r)) h
         else if rec_data r \<noteq> None
           then renderNestedValueComponent p (call (getProvider p) (rec_sourceId r)) h
         else (let t = text_or_space (rec_text r)
               in if rec_format r = Some ''ansi''
                  then (Inr (Ansi (AnsiRenderSegment parseText) t), h)
                  else (Inr (Pre (Parsed (parseText t))), h)))"

subsection \<open>The outer frame\<close>

definition ONE_DAY :: int where
  "ONE_DAY = 1000 * 60 * 60 * 24"

text \<open>
  The label is the Date formatted by \<^verbatim>\<open>toLocaleString\<close> (date and time) or by
  \<^verbatim>\<open>toLocaleTimeString\<close> (time only); \<open>now\<close> is \<^verbatim>\<open>Date.now()\<close>.
\<close>

datatype timestamp_label = LocaleString int | LocaleTimeString int

definition renderedTimestamp :: "int \<Rightarrow> int option \<Rightarrow> timestamp_label option" where
  "renderedTimestamp now timestamp =
     (case timestamp of
        None \<Rightarrow> None
      | Some t \<Rightarrow> Some (if now - t > ONE_DAY then LocaleString t else LocaleTimeString t))"

record 'n frame =
  f_classNames :: "string list"
  f_icon :: "string option"
  f_duplicateNumber :: "int option"
  f_content :: "'n element"
  f_sourceLabel :: "(string \<times> string) option"
  f_timestamp :: "timestamp_label option"
  f_progressVisible :: bool

text \<open>The class list that \<^verbatim>\<open>classnames\<close> joins with spaces.\<close>

definition classNames :: "console_record \<Rightarrow> string list" where
  "classNames r =
     [''console-record'',
      ''level-'' @ (case rec_level r of None \<Rightarrow> ''log'' | Some l \<Rightarrow> if l = [] then ''log'' else l)]
     @ (if rec_kind r = ''request'' then [''request''] else [])
     @ (if rec_kind r = ''response'' then [''response''] else [])"

definition render ::
  "(string \<Rightarrow> 'n) \<Rightarrow> int \<Rightarrow> props \<Rightarrow> heap \<Rightarrow> (error + 'n frame) \<times> heap" where
  "render parseText now p h =
     (let r = deref (the_record p);
          icon = (case getIconName r of
                    None \<Rightarrow> None
                  | Some n \<Rightarrow> if n = [] then None else Some (''icon icon-'' @ n));
          sourceLabel =
            (if showSourceLabel p
             then Some (''console-record-source-label '' @ getHighlightClassName (rec_level r),
                        (case rec_sourceName r of None \<Rightarrow> rec_sourceId r | Some n \<Rightarrow> n))
             else None);
          ts = renderedTimestamp now (rec_timestamp r)
      in case renderContent parseText p h of
           (Inl err, h1) \<Rightarrow> (Inl err, h1)
         | (Inr content, h1) \<Rightarrow>
             (Inr \<lparr>f_classNames = classNames r, f_icon = icon,
                   f_duplicateNumber =
                     (if rec_repeatCount r > 1 then Some (rec_repeatCount r) else None),
                   f_content = content, f_sourceLabel = sourceLabel, f_timestamp = ts,
                   f_progressVisible = rec_incomplete r\<rparr>, h1))"

subsection \<open>The component instance\<close>

text \<open>The wrapper \<^verbatim>\<open>div\<close>, read through its measured height.\<close>

record html_element =
  offsetHeight :: int

text \<open>
  Modelled from the spec: \<^verbatim>\<open>nuclide-commons/debounce\<close> is not in src. A debounced
  function defers its callback: every invocation restarts a quiet window of \<open>wait\<close>
  milliseconds, the callback fires once when the window has passed, and \<open>dispose\<close> cancels
  a pending invocation. \<open>pending\<close> is the time at which the callback is due,
  \<open>invocations\<close> counts how often the callback has fired.
\<close>

record debounced =
  wait :: int
  pending :: "int option"
  invocations :: nat

definition debounce :: "int \<Rightarrow> debounced" where
  "debounce w = \<lparr>wait = w, pending = None, invocations = 0\<rparr>"

definition invoke :: "int \<Rightarrow> debounced \<Rightarrow> debounced" where
  "invoke now d = d\<lparr>pending := Some (now + wait d)\<rparr>"

definition dispose :: "debounced \<Rightarrow> debounced" where
  "dispose d = d\<lparr>pending := None\<rparr>"

definition due :: "int \<Rightarrow> debounced \<Rightarrow> bool" where
  "due now d = (case pending d of None \<Rightarrow> False | Some t \<Rightarrow> t \<le> now)"

definition fired :: "debounced \<Rightarrow> debounced" where
  "fired d = d\<lparr>pending := None, invocations := Suc (invocations d)\<rparr>"

record component =
  this_props :: props
  this_wrapper :: "html_element option"
  this_debounced :: debounced

text \<open>One invocation of \<^verbatim>\<open>props.onHeightChange\<close>: the function called and its arguments.\<close>

record height_call =
  hc_callback :: ref
  hc_record :: "console_record ptr"
  hc_height :: int

definition constructor :: "props \<Rightarrow> component" where
  "constructor p = \<lparr>this_props = p, this_wrapper = None, this_debounced = debounce 10\<rparr>"

definition measureAndNotifyHeight :: "component \<Rightarrow> height_call list \<Rightarrow> height_call list" where
  "measureAndNotifyHeight c calls =
     (case this_wrapper c of
        None \<Rightarrow> calls
      | Some w \<Rightarrow>
          calls @ [\<lparr>hc_callback = onHeightChange (this_props c),
                    hc_record = the_record (this_props c),
                    hc_height = offsetHeight w\<rparr>])"

definition handleRecordWrapper :: "component \<Rightarrow> html_element option \<Rightarrow> component" where
  "handleRecordWrapper c w = c\<lparr>this_wrapper := w\<rparr>"

definition componentDidMount :: "component \<Rightarrow> height_call list \<Rightarrow> height_call list" where
  "componentDidMount c calls = measureAndNotifyHeight c calls"

definition componentDidUpdate ::
  "component \<Rightarrow> props \<Rightarrow> height_call list \<Rightarrow> height_call list" where
  "componentDidUpdate c prevProps calls =
     (if \<not> strict_eq (the_record (this_props c)) (the_record prevProps)
      then measureAndNotifyHeight c calls
      else calls)"

definition componentWillUnmount :: "component \<Rightarrow> component" where
  "componentWillUnmount c = c\<lparr>this_debounced := dispose (this_debounced c)\<rparr>"

text \<open>
  Modelled from the spec: the \<^verbatim>\<open>shallowequal\<close> library is not in src. Two props objects
  are shallowly equal when every prop is equal one level deep: by reference for objects and
  functions, by value for the boolean.
\<close>

definition shallowEqual :: "props \<Rightarrow> props \<Rightarrow> bool" where
  "shallowEqual a b =
     (strict_eq (the_record a) (the_record b) \<and>
      showSourceLabel a = showSourceLabel b \<and>
      fn_id (getExecutor a) = fn_id (getExecutor b) \<and>
      fn_id (getProvider a) = fn_id (getProvider b) \<and>
      onHeightChange a = onHeightChange b \<and>
      expansionStateId a = expansionStateId b)"

definition shouldComponentUpdate :: "component \<Rightarrow> props \<Rightarrow> bool" where
  "shouldComponentUpdate c nextProps = (\<not> shallowEqual (this_props c) nextProps)"

subsection \<open>The host\<close>

text \<open>
  What the component's surroundings observe: the object store, the invocations of
  \<^verbatim>\<open>onHeightChange\<close> and the number of calls of \<^verbatim>\<open>render\<close>.
\<close>

record env =
  store :: heap
  height_calls :: "height_call list"
  render_count :: nat

text \<open>
  Modelled from the spec: the host framework is not in src. Mounting constructs the
  component, renders it, hands the wrapper element to the ref callback and calls
  \<^verbatim>\<open>componentDidMount\<close>. An update asks \<^verbatim>\<open>shouldComponentUpdate\<close>; when it answers no, the
  new props are stored and nothing else happens; otherwise the component renders again and
  \<^verbatim>\<open>componentDidUpdate\<close> receives the previous props. Unmounting calls
  \<^verbatim>\<open>componentWillUnmount\<close> and then the ref callback with null.
\<close>

definition mountComponent ::
  "(string \<Rightarrow> 'n) \<Rightarrow> int \<Rightarrow> html_element \<Rightarrow> props \<Rightarrow> env \<Rightarrow> (error + component) \<times> env" where
  "mountComponent parseText now el p e =
     (let c = constructor p
      in case render parseText now p (store e) of
           (Inl err, h1) \<Rightarrow>
             (Inl err, e\<lparr>store := h1, render_count := Suc (render_count e)\<rparr>)
         | (Inr fr, h1) \<Rightarrow>
             (let c1 = handleRecordWrapper c (Some el)
              in (Inr c1, e\<lparr>store := h1,
                             height_calls := componentDidMount c1 (height_calls e),
                             render_count := Suc (render_count e)\<rparr>)))"

definition updateComponent ::
  "(string \<Rightarrow> 'n) \<Rightarrow> int \<Rightarrow> component \<Rightarrow> props \<Rightarrow> env \<Rightarrow> (error + component) \<times> env" where
  "updateComponent parseText now c nextProps e =
     (if shouldComponentUpdate c nextProps
      then (let prevProps = this_props c; c1 = c\<lparr>this_props := nextProps\<rparr>
            in case render parseText now nextProps (store e) of
                 (Inl err, h1) \<Rightarrow>
                   (Inl err, e\<lparr>store := h1, render_count := Suc (render_count e)\<rparr>)
               | (Inr fr, h1) \<Rightarrow>
                   (Inr c1, e\<lparr>store := h1,
                                height_calls := componentDidUpdate c1 prevProps (height_calls e),
                                render_count := Suc (render_count e)\<rparr>))
      else (Inr (c\<lparr>this_props := nextProps\<rparr>), e))"

definition unmountComponent :: "component \<Rightarrow> component" where
  "unmountComponent c = handleRecordWrapper (componentWillUnmount c) None"

text \<open>
  The measurement signal of the enclosing MeasuredComponent invokes the debounced function;
  a timer tick at time \<open>now\<close> fires the callback when it is due.
\<close>

definition onMeasurementsChanged :: "int \<Rightarrow> component \<Rightarrow> component" where
  "onMeasurementsChanged now c = c\<lparr>this_debounced := invoke now (this_debounced c)\<rparr>"

definition timer_tick :: "int \<Rightarrow> component \<Rightarrow> height_call list \<Rightarrow> component \<times> height_call list" where
  "timer_tick now c calls =
     (if due now (this_debounced c)
      then (c\<lparr>this_debounced := fired (this_debounced c)\<rparr>, measureAndNotifyHeight c calls)
      else (c, calls))"

fun timer_ticks :: "int list \<Rightarrow> component \<Rightarrow> height_call list \<Rightarrow> component \<times> height_call list" where
  "timer_ticks [] c calls = (c, calls)"
| "timer_ticks (t # ts) c calls =
     (case timer_tick t c calls of (c1, calls1) \<Rightarrow> timer_ticks ts c1 calls1)"

text \<open>Sample inputs for the closed instances below.\<close>

definition sample_parseText :: "string \<Rightarrow> string list" where
  "sample_parseText s = [s]"

definition no_source :: "(string, source option) jsfun" where
  "no_source = JsFun 7 (\<lambda>id. None)"

definition sample_record :: console_record where
  "sample_record =
     \<lparr>rec_kind = ''message'', rec_level = Some ''error'', rec_text = Some ''done'',
      rec_format = Some ''ansi'', rec_data = None, rec_sourceId = ''src'',
      rec_sourceName = None, rec_timestamp = Some 1000, rec_repeatCount = 1,
      rec_incomplete = False\<rparr>"

definition sample_props :: "console_record \<Rightarrow> props" where
  "sample_props r =
     \<lparr>the_record = Ptr 1 r, showSourceLabel = False, getExecutor = no_source,
      getProvider = no_source, onHeightChange = 9, expansionStateId = 0\<rparr>"

definition simple_object :: console_object where
  "simple_object =
     \<lparr>obj_description = Some ''42'', obj_type = None,
      obj_expression = \<lparr>reference = 0, getValue = ''42''\<rparr>\<rparr>"

definition lazy_object :: console_object where
  "lazy_object =
     \<lparr>obj_description = Some ''Object'', obj_type = Some ''object'',
      obj_expression = \<lparr>reference = 5, getValue = []\<rparr>\<rparr>"

definition objects_record :: "console_object list option \<Rightarrow> console_record" where
  "objects_record objs =
     sample_record\<lparr>rec_data := Some \<lparr>data_type = Some ''objects'', data_objects = objs\<rparr>\<rparr>"

definition null_slot_store :: heap where
  "null_slot_store = [[''child0'' \<mapsto> JNull]]"

definition kept_slot_store :: heap where
  "kept_slot_store = [[''child0'' \<mapsto> JRef 1], Map.empty]"

definition empty_env :: env where
  "empty_env = \<lparr>store = [Map.empty], height_calls = [], render_count = 0\<rparr>"

definition sample_element :: html_element where
  "sample_element = \<lparr>offsetHeight = 20\<rparr>"

section \<open>Auxiliary facts\<close>

subsection \<open>Decimal numerals are injective\<close>

lemma digit_char_inj: "a < 10 \<Longrightarrow> b < 10 \<Longrightarrow> digit_char a = digit_char b \<Longrightarrow> a = b"
proof -
  assume a: "a < 10" and b: "b < 10" and e: "digit_char a = digit_char b"
  have d: "distinct ''0123456789''" by simp
  have "length ''0123456789'' = 10" by simp
  with a b e d show ?thesis
    unfolding digit_char_def by (metis nth_eq_iff_index_eq)
qed

lemma string_of_nat_nonempty: "string_of_nat n \<noteq> []"
  by (subst string_of_nat.simps) simp

lemma string_of_nat_inj: "string_of_nat m = string_of_nat n \<Longrightarrow> m = n"
proof (induction m arbitrary: n rule: string_of_nat.induct)
  case (1 m)
  show ?case
  proof (cases "m < 10")
    case True
    then have sm: "string_of_nat m = [digit_char m]"
      by (subst string_of_nat.simps) simp
    show ?thesis
    proof (cases "n < 10")
      case nl: True
      then have "string_of_nat n = [digit_char n]"
        by (subst string_of_nat.simps) simp
      with sm "1.prems" have "digit_char m = digit_char n" by simp
      with True nl show ?thesis by (rule digit_char_inj)
    next
      case False
      then have "string_of_nat n = string_of_nat (n div 10) @ [digit_char (n mod 10)]"
        by (subst string_of_nat.simps) simp
      with sm "1.prems" have "string_of_nat (n div 10) = []" by simp
      then show ?thesis by (simp add: string_of_nat_nonempty)
    qed
  next
    case False
    then have sm: "string_of_nat m = string_of_nat (m div 10) @ [digit_char (m mod 10)]"
      by (subst string_of_nat.simps) simp
    show ?thesis
    proof (cases "n < 10")
      case True
      then have "string_of_nat n = [digit_char n]"
        by (subst string_of_nat.simps) simp
      with sm "1.prems" have "string_of_nat (m div 10) = []" by simp
      then show ?thesis by (simp add: string_of_nat_nonempty)
    next
      case nf: False
      then have "string_of_nat n = string_of_nat (n div 10) @ [digit_char (n mod 10)]"
        by (subst string_of_nat.simps) simp
      with sm "1.prems" have q: "string_of_nat (m div 10) = string_of_nat (n div 10)"
        and r: "digit_char (m mod 10) = digit_char (n mod 10)" by simp_all
      from "1.IH" [OF False q] have dq: "m div 10 = n div 10" .
      have "m mod 10 = n mod 10" using r by (intro digit_char_inj) simp_all
      with dq show ?thesis by (metis div_mult_mod_eq)
    qed
  qed
qed

lemma expansionStateKey_inj: "expansionStateKey i = expansionStateKey j \<Longrightarrow> i = j"
  by (simp add: expansionStateKey_def string_of_nat_inj)

subsection \<open>One slot of the expansion state\<close>

lemma init_slot_truthy: "truthy (get_prop h e k) \<Longrightarrow> init_slot h e k = h"
  by (simp add: init_slot_def)

lemma init_slot_falsy:
  "\<not> truthy (get_prop h e k) \<Longrightarrow>
   init_slot h e k = (h @ [Map.empty])[e := ((h @ [Map.empty]) ! e)(k \<mapsto> JRef (length h))]"
  by (simp add: init_slot_def new_object_def set_prop_def)

lemma init_slot_length: "length h \<le> length (init_slot h e k)"
  by (cases "truthy (get_prop h e k)") (simp_all add: init_slot_truthy init_slot_falsy)

lemma init_slot_other_object:
  "a < length h \<Longrightarrow> a \<noteq> e \<Longrightarrow> init_slot h e k ! a = h ! a"
  by (cases "truthy (get_prop h e k)")
     (simp_all add: init_slot_truthy init_slot_falsy nth_append)

lemma init_slot_other_key:
  "e < length h \<Longrightarrow> k' \<noteq> k \<Longrightarrow> (init_slot h e k ! e) k' = (h ! e) k'"
  by (cases "truthy (get_prop h e k)")
     (simp_all add: init_slot_truthy init_slot_falsy nth_append)

lemma init_slot_same_key:
  "e < length h \<Longrightarrow> \<not> truthy (get_prop h e k) \<Longrightarrow>
   (init_slot h e k ! e) k = Some (JRef (length h)) \<and>
   length (init_slot h e k) = Suc (length h) \<and>
   init_slot h e k ! length h = Map.empty"
  by (simp add: init_slot_falsy nth_append)

lemma init_slot_slot_truthy: "e < length h \<Longrightarrow> truthy (get_prop (init_slot h e k) e k)"
  by (cases "truthy (get_prop h e k)")
     (simp_all add: init_slot_truthy init_slot_same_key get_prop_def)

lemma init_slot_dom: "e < length h \<Longrightarrow> dom (h ! e) \<subseteq> dom (init_slot h e k ! e)"
  by (cases "truthy (get_prop h e k)")
     (auto simp add: init_slot_truthy init_slot_falsy nth_append)

lemma snd_render_object:
  "snd (render_object e f i object h) = init_slot h e (expansionStateKey i)"
  by (simp add: render_object_def Let_def)

subsection \<open>The loop over the objects\<close>

lemma render_objects_Cons:
  "render_objects e f i (object # rest) ch h =
   render_objects e f (Suc i) rest (ch @ [fst (render_object e f i object h)])
     (init_slot h e (expansionStateKey i))"
  by (simp add: case_prod_beta snd_render_object)

declare render_objects.simps(2) [simp del]

lemma render_objects_heap_length:
  "length h \<le> length (snd (render_objects e f i objs ch h))"
proof (induction objs arbitrary: i ch h)
  case Nil
  show ?case by simp
next
  case (Cons object rest)
  have "length h \<le> length (init_slot h e (expansionStateKey i))"
    by (rule init_slot_length)
  also have "\<dots> \<le> length (snd (render_objects e f i (object # rest) ch h))"
    unfolding render_objects_Cons by (rule Cons.IH)
  finally show ?case .
qed

lemma render_objects_other_object:
  "a < length h \<Longrightarrow> a \<noteq> e \<Longrightarrow> snd (render_objects e f i objs ch h) ! a = h ! a"
proof (induction objs arbitrary: i ch h)
  case Nil
  show ?case by simp
next
  case (Cons object rest)
  let ?h1 = "init_slot h e (expansionStateKey i)"
  from Cons.prems have "a < length ?h1"
    using init_slot_length [of h e "expansionStateKey i"] by simp
  then have "snd (render_objects e f (Suc i) rest (ch @ [fst (render_object e f i object h)]) ?h1) ! a
      = ?h1 ! a"
    using Cons.prems by (intro Cons.IH)
  then show ?case
    using Cons.prems by (simp add: render_objects_Cons init_slot_other_object)
qed

lemma render_objects_other_key:
  "e < length h \<Longrightarrow> \<forall>j. i \<le> j \<and> j < i + length objs \<longrightarrow> k \<noteq> expansionStateKey j \<Longrightarrow>
   (snd (render_objects e f i objs ch h) ! e) k = (h ! e) k"
proof (induction objs arbitrary: i ch h)
  case Nil
  show ?case by simp
next
  case (Cons object rest)
  let ?h1 = "init_slot h e (expansionStateKey i)"
  have e1: "e < length ?h1"
    using Cons.prems(1) init_slot_length [of h e "expansionStateKey i"] by simp
  have rest: "\<forall>j. Suc i \<le> j \<and> j < Suc i + length rest \<longrightarrow> k \<noteq> expansionStateKey j"
    using Cons.prems(2) by simp
  have here: "k \<noteq> expansionStateKey i"
    using Cons.prems(2) by simp
  have "(snd (render_objects e f (Suc i) rest (ch @ [fst (render_object e f i object h)]) ?h1) ! e) k
      = (?h1 ! e) k"
    using e1 rest by (rule Cons.IH)
  also have "\<dots> = (h ! e) k"
    using Cons.prems(1) here by (rule init_slot_other_key)
  finally show ?case by (simp add: render_objects_Cons)
qed

lemma render_objects_earlier_key:
  "e < length h \<Longrightarrow> j < i \<Longrightarrow>
   get_prop (snd (render_objects e f i objs ch h)) e (expansionStateKey j) =
   get_prop h e (expansionStateKey j)"
proof -
  assume e: "e < length h" and j: "j < i"
  have "\<forall>j'. i \<le> j' \<and> j' < i + length objs \<longrightarrow> expansionStateKey j \<noteq> expansionStateKey j'"
    using j by (auto dest: expansionStateKey_inj)
  with e have "(snd (render_objects e f i objs ch h) ! e) (expansionStateKey j)
      = (h ! e) (expansionStateKey j)"
    by (rule render_objects_other_key)
  then show ?thesis by (simp add: get_prop_def)
qed

lemma render_objects_truthy_kept:
  "e < length h \<Longrightarrow> truthy (get_prop h e k) \<Longrightarrow>
   (snd (render_objects e f i objs ch h) ! e) k = (h ! e) k"
proof (induction objs arbitrary: i ch h)
  case Nil
  show ?case by simp
next
  case (Cons object rest)
  let ?h1 = "init_slot h e (expansionStateKey i)"
  have e1: "e < length ?h1"
    using Cons.prems(1) init_slot_length [of h e "expansionStateKey i"] by simp
  have same: "(?h1 ! e) k = (h ! e) k"
  proof (cases "k = expansionStateKey i")
    case True
    with Cons.prems(2) show ?thesis by (simp add: init_slot_truthy)
  next
    case False
    with Cons.prems(1) show ?thesis by (rule init_slot_other_key)
  qed
  then have "truthy (get_prop ?h1 e k)"
    using Cons.prems(2) by (simp add: get_prop_def)
  with e1 have "(snd (render_objects e f (Suc i) rest (ch @ [fst (render_object e f i object h)]) ?h1) ! e) k
      = (?h1 ! e) k"
    by (rule Cons.IH)
  with same show ?case by (simp add: render_objects_Cons)
qed

lemma render_objects_dom:
  "e < length h \<Longrightarrow> dom (h ! e) \<subseteq> dom (snd (render_objects e f i objs ch h) ! e)"
proof (induction objs arbitrary: i ch h)
  case Nil
  show ?case by simp
next
  case (Cons object rest)
  let ?h1 = "init_slot h e (expansionStateKey i)"
  have e1: "e < length ?h1"
    using Cons.prems init_slot_length [of h e "expansionStateKey i"] by simp
  have "dom (h ! e) \<subseteq> dom (?h1 ! e)"
    using Cons.prems by (rule init_slot_dom)
  also have "\<dots> \<subseteq> dom (snd (render_objects e f i (object # rest) ch h) ! e)"
    unfolding render_objects_Cons using e1 by (rule Cons.IH)
  finally show ?case .
qed

text \<open>An entry that the loop changed now refers to a new, empty object.\<close>

lemma render_objects_changed:
  "e < length h \<Longrightarrow> (snd (render_objects e f i objs ch h) ! e) k \<noteq> (h ! e) k \<Longrightarrow>
   \<exists>a. (snd (render_objects e f i objs ch h) ! e) k = Some (JRef a) \<and> length h \<le> a \<and>
       a < length (snd (render_objects e f i objs ch h)) \<and>
       snd (render_objects e f i objs ch h) ! a = Map.empty"
proof (induction objs arbitrary: i ch h)
  case Nil
  then show ?case by simp
next
  case (Cons object rest)
  let ?h1 = "init_slot h e (expansionStateKey i)"
  let ?ch1 = "ch @ [fst (render_object e f i object h)]"
  let ?h2 = "snd (render_objects e f (Suc i) rest ?ch1 ?h1)"
  have h2: "snd (render_objects e f i (object # rest) ch h) = ?h2"
    by (simp add: render_objects_Cons)
  have len1: "length h \<le> length ?h1" by (rule init_slot_length)
  have e1: "e < length ?h1" using Cons.prems(1) len1 by simp
  have len2: "length ?h1 \<le> length ?h2" by (rule render_objects_heap_length)
  show ?case
  proof (cases "(?h2 ! e) k = (?h1 ! e) k")
    case False
    with e1 obtain a where a: "(?h2 ! e) k = Some (JRef a)" "length ?h1 \<le> a"
        "a < length ?h2" "?h2 ! a = Map.empty"
      using Cons.IH [of ?h1 "Suc i" ?ch1] by blast
    with len1 show ?thesis unfolding h2 by auto
  next
    case True
    with Cons.prems(2) have ch: "(?h1 ! e) k \<noteq> (h ! e) k" by (simp add: h2)
    then have k: "k = expansionStateKey i"
      using Cons.prems(1) init_slot_other_key [of e h k "expansionStateKey i"] by blast
    have nt: "\<not> truthy (get_prop h e k)"
      using ch init_slot_truthy [of h e k] k by auto
    from init_slot_same_key [OF Cons.prems(1) nt]
    have s: "(?h1 ! e) k = Some (JRef (length h))" "length ?h1 = Suc (length h)"
        "?h1 ! length h = Map.empty"
      using k by simp_all
    have ne: "length h \<noteq> e" using Cons.prems(1) by simp
    have "?h2 ! length h = ?h1 ! length h"
      using s(2) ne by (intro render_objects_other_object) simp_all
    with s True len2 show ?thesis unfolding h2 by auto
  qed
qed

lemma render_objects_changed_key:
  "e < length h \<Longrightarrow> (snd (render_objects e f i objs ch h) ! e) k \<noteq> (h ! e) k \<Longrightarrow>
   \<not> truthy (get_prop h e k) \<and> (\<exists>j. i \<le> j \<and> j < i + length objs \<and> k = expansionStateKey j)"
  using render_objects_truthy_kept [of e h k f i objs ch]
    render_objects_other_key [of e h i objs k f ch]
  by blast

lemma render_objects_children_length:
  "length (fst (render_objects e f i objs ch h)) = length ch + length objs"
  by (induction objs arbitrary: i ch h) (simp_all add: render_objects_Cons)

lemma render_objects_children_prefix:
  "n < length ch \<Longrightarrow> fst (render_objects e f i objs ch h) ! n = ch ! n"
  by (induction objs arbitrary: i ch h) (simp_all add: render_objects_Cons nth_append)

lemma render_objects_child_simple:
  "n < length objs \<Longrightarrow> reference (obj_expression (objs ! n)) = 0 \<Longrightarrow>
   fst (render_objects e f i objs ch h) ! (length ch + n) =
   SimpleValue None
     (ValueResult (case obj_type (objs ! n) of None \<Rightarrow> ''text'' | Some t \<Rightarrow> t)
        (getValue (obj_expression (objs ! n))))"
proof (induction objs arbitrary: i ch h n)
  case Nil
  then show ?case by simp
next
  case (Cons object rest)
  let ?c = "fst (render_object e f i object h)"
  let ?h1 = "init_slot h e (expansionStateKey i)"
  show ?case
  proof (cases n)
    case 0
    have "fst (render_objects e f (Suc i) rest (ch @ [?c]) ?h1) ! length ch = (ch @ [?c]) ! length ch"
      by (rule render_objects_children_prefix) simp
    with 0 Cons.prems(2) show ?thesis
      by (simp add: render_objects_Cons render_object_def Let_def)
  next
    case (Suc m)
    with Cons.prems have "fst (render_objects e f (Suc i) rest (ch @ [?c]) ?h1) ! (length (ch @ [?c]) + m) =
      SimpleValue None
        (ValueResult (case obj_type (rest ! m) of None \<Rightarrow> ''text'' | Some t \<Rightarrow> t)
           (getValue (obj_expression (rest ! m))))"
      by (intro Cons.IH) simp_all
    with Suc show ?thesis by (simp add: render_objects_Cons)
  qed
qed

lemma render_objects_child_lazy:
  "e < length h \<Longrightarrow> n < length objs \<Longrightarrow> reference (obj_expression (objs ! n)) \<noteq> 0 \<Longrightarrow>
   fst (render_objects e f i objs ch h) ! (length ch + n) =
   LazyNestedValue ''console-lazy-nested-value''
     (ObjectResult (obj_description (objs ! n))
        (case obj_type (objs ! n) of None \<Rightarrow> [] | Some t \<Rightarrow> t) (obj_expression (objs ! n)))
     f (getComponent (obj_type (objs ! n))) True
     (get_prop (snd (render_objects e f i objs ch h)) e (expansionStateKey (i + n)))"
proof (induction objs arbitrary: i ch h n)
  case Nil
  then show ?case by simp
next
  case (Cons object rest)
  let ?c = "fst (render_object e f i object h)"
  let ?h1 = "init_slot h e (expansionStateKey i)"
  have e1: "e < length ?h1"
    using Cons.prems(1) init_slot_length [of h e "expansionStateKey i"] by simp
  show ?case
  proof (cases n)
    case 0
    have "fst (render_objects e f (Suc i) rest (ch @ [?c]) ?h1) ! length ch = (ch @ [?c]) ! length ch"
      by (rule render_objects_children_prefix) simp
    moreover have "get_prop (snd (render_objects e f (Suc i) rest (ch @ [?c]) ?h1)) e (expansionStateKey i)
        = get_prop ?h1 e (expansionStateKey i)"
      using e1 by (rule render_objects_earlier_key) simp
    ultimately show ?thesis
      using 0 Cons.prems(3) by (simp add: render_objects_Cons render_object_def Let_def)
  next
    case (Suc m)
    with Cons.prems e1
    have "fst (render_objects e f (Suc i) rest (ch @ [?c]) ?h1) ! (length (ch @ [?c]) + m) =
      LazyNestedValue ''console-lazy-nested-value''
        (ObjectResult (obj_description (rest ! m))
           (case obj_type (rest ! m) of None \<Rightarrow> [] | Some t \<Rightarrow> t) (obj_expression (rest ! m)))
        f (getComponent (obj_type (rest ! m))) True
        (get_prop (snd (render_objects e f (Suc i) rest (ch @ [?c]) ?h1)) e
           (expansionStateKey (Suc i + m)))"
      by (intro Cons.IH) simp_all
    with Suc show ?thesis by (simp add: render_objects_Cons)
  qed
qed

lemma render_objects_slot_truthy:
  "e < length h \<Longrightarrow> n < length objs \<Longrightarrow>
   truthy (get_prop (snd (render_objects e f i objs ch h)) e (expansionStateKey (i + n)))"
proof (induction objs arbitrary: i ch h n)
  case Nil
  then show ?case by simp
next
  case (Cons object rest)
  let ?c = "fst (render_object e f i object h)"
  let ?h1 = "init_slot h e (expansionStateKey i)"
  have e1: "e < length ?h1"
    using Cons.prems(1) init_slot_length [of h e "expansionStateKey i"] by simp
  show ?case
  proof (cases n)
    case 0
    have t: "truthy (get_prop ?h1 e (expansionStateKey i))"
      using Cons.prems(1) by (rule init_slot_slot_truthy)
    with e1 have "(snd (render_objects e f (Suc i) rest (ch @ [?c]) ?h1) ! e) (expansionStateKey i)
        = (?h1 ! e) (expansionStateKey i)"
      by (rule render_objects_truthy_kept)
    with t 0 show ?thesis by (simp add: render_objects_Cons get_prop_def)
  next
    case (Suc m)
    with Cons.prems e1
    have "truthy (get_prop (snd (render_objects e f (Suc i) rest (ch @ [?c]) ?h1)) e
        (expansionStateKey (Suc i + m)))"
      by (intro Cons.IH) simp_all
    with Suc show ?thesis by (simp add: render_objects_Cons)
  qed
qed

subsection \<open>What a render does to the store\<close>

lemma renderNestedValueComponent_objects:
  fixes h :: heap
  shows "rec_data (deref (the_record p)) = Some d \<Longrightarrow> data_type d = Some ''objects'' \<Longrightarrow>
   data_objects d = Some objs \<Longrightarrow>
   renderNestedValueComponent p provider h =
   (Inr (MultipleObjects
      (fst (render_objects (expansionStateId p)
              (case provider of None \<Rightarrow> None | Some s \<Rightarrow> Some (getProperties s)) 0 objs ([] :: 'n element list) h))),
    snd (render_objects (expansionStateId p)
           (case provider of None \<Rightarrow> None | Some s \<Rightarrow> Some (getProperties s)) 0 objs ([] :: 'n element list) h))"
  by (simp add: renderNestedValueComponent_def case_prod_beta Let_def)

lemma renderNestedValueComponent_store:
  "snd (renderNestedValueComponent p provider h :: (error + 'n element) \<times> heap) = h \<or>
   (\<exists>f objs. snd (renderNestedValueComponent p provider h :: (error + 'n element) \<times> heap) =
      snd (render_objects (expansionStateId p) f 0 objs ([] :: 'n element list) h))"
proof (cases "\<exists>d objs. rec_data (deref (the_record p)) = Some d \<and>
    data_type d = Some ''objects'' \<and> data_objects d = Some objs")
  case True
  then obtain d objs where "rec_data (deref (the_record p)) = Some d"
    "data_type d = Some ''objects''" "data_objects d = Some objs" by blast
  then show ?thesis
    using renderNestedValueComponent_objects [of p d objs provider h, where ?'n = 'n]
    by (metis snd_conv)
next
  case False
  then have "snd (renderNestedValueComponent p provider h :: (error + 'n element) \<times> heap) = h"
    by (auto simp add: renderNestedValueComponent_def Let_def split: option.splits)
  then show ?thesis ..
qed

lemma renderContent_store:
  fixes parseText :: "string \<Rightarrow> 'n"
  shows "snd (renderContent parseText p h) = h \<or>
   (\<exists>f objs. snd (renderContent parseText p h) =
      snd (render_objects (expansionStateId p) f 0 objs ([] :: 'n element list) h))"
  using renderNestedValueComponent_store
      [of p "call (getExecutor p) (rec_sourceId (deref (the_record p)))" h, where ?'n = 'n]
    renderNestedValueComponent_store
      [of p "call (getProvider p) (rec_sourceId (deref (the_record p)))" h, where ?'n = 'n]
  by (auto simp add: renderContent_def Let_def)

lemma render_store: "snd (render parseText now p h) = snd (renderContent parseText p h)"
  by (simp add: render_def Let_def split: prod.splits sum.splits)

lemma render_frame_content:
  "render parseText now p h = (Inr fr, h1) \<Longrightarrow> renderContent parseText p h = (Inr (f_content fr), h1)"
  by (auto simp add: render_def Let_def split: prod.splits sum.splits)

section \<open>Content selection\<close>

text \<open>
  C5. For every record of kind request the content is the record's text in a plain
  \<^verbatim>\<open>pre\<close> element, or one space when the text is absent or empty, whatever the format, the
  data, the level and the lookups are; the store is left as it was, and the frame that
  \<^verbatim>\<open>render\<close> returns has this content.
\<close>

theorem request_renders_plain_text:
  assumes "rec_kind (deref (the_record p)) = ''request''"
  shows "renderContent parseText p h =
           (Inr (Pre (Raw (case rec_text (deref (the_record p)) of
                             None \<Rightarrow> '' ''
                           | Some s \<Rightarrow> if s = [] then '' '' else s))), h) \<and>
         (\<exists>fr. render parseText now p h = (Inr fr, h) \<and>
               f_content fr = Pre (Raw (case rec_text (deref (the_record p)) of
                                          None \<Rightarrow> '' ''
                                        | Some s \<Rightarrow> if s = [] then '' '' else s)))"
  using assms by (simp add: renderContent_def render_def text_or_space_def Let_def)

theorem request_renders_plain_text_witness:
  "renderContent sample_parseText
     (sample_props (sample_record\<lparr>rec_kind := ''request'', rec_text := Some []\<rparr>)) [Map.empty] =
     (Inr (Pre (Raw '' '')), [Map.empty]) \<and>
   renderContent sample_parseText
     (sample_props (sample_record\<lparr>rec_kind := ''request'', rec_text := None\<rparr>)) [Map.empty] =
     (Inr (Pre (Raw '' '')), [Map.empty]) \<and>
   renderContent sample_parseText
     (sample_props (sample_record\<lparr>rec_kind := ''request'', rec_text := Some ''ls -l''\<rparr>))
     [Map.empty] = (Inr (Pre (Raw ''ls -l'')), [Map.empty])"
proof -
  have k: "rec_kind (deref (the_record (sample_props (sample_record\<lparr>rec_kind := ''request'', rec_text := t\<rparr>))))
      = ''request''" for t
    by (simp add: sample_props_def)
  show ?thesis
    using request_renders_plain_text [OF k [of "Some []"], of sample_parseText "[Map.empty]" 0]
      request_renders_plain_text [OF k [of None], of sample_parseText "[Map.empty]" 0]
      request_renders_plain_text [OF k [of "Some ''ls -l''"], of sample_parseText "[Map.empty]" 0]
    by (simp add: sample_props_def)
qed

text \<open>
  C1, as stated, fails: a record of format ansi and kind request is rendered by the plain
  \<^verbatim>\<open>pre\<close> path, and one of kind response by the nested-value path.
\<close>

theorem ansi_format_ignored_for_request_counterexample:
  "rec_format (deref (the_record (sample_props (sample_record\<lparr>rec_kind := ''request''\<rparr>)))) =
     Some ''ansi'' \<and>
   renderContent sample_parseText (sample_props (sample_record\<lparr>rec_kind := ''request''\<rparr>))
     [Map.empty] = (Inr (Pre (Raw ''done'')), [Map.empty]) \<and>
   rec_format (deref (the_record (sample_props (sample_record\<lparr>rec_kind := ''response''\<rparr>)))) =
     Some ''ansi'' \<and>
   renderContent sample_parseText (sample_props (sample_record\<lparr>rec_kind := ''response''\<rparr>))
     [Map.empty] =
     (Inr (LazyNestedValue ''console-lazy-nested-value'' (DataResult None) None
             SimpleValueComponent True (JRef 0)), [Map.empty])"
  by (simp add: renderContent_def renderNestedValueComponent_def sample_props_def
      sample_record_def text_or_space_def no_source_def getComponent_def Let_def)

text \<open>
  C1, amended. For every record of format ansi whose kind is neither request nor response
  and whose data is null, the content is the ANSI renderer applied to the text (one space
  when the text is absent or empty) with \<^verbatim>\<open>AnsiRenderSegment\<close> as its per-segment function,
  which puts the parsed content of the segment in a span of the themed class; it is not a
  \<^verbatim>\<open>pre\<close> element.
\<close>

theorem ansi_format_renders_ansi:
  assumes "rec_format (deref (the_record p)) = Some ''ansi''"
    and "rec_kind (deref (the_record p)) \<noteq> ''request''"
    and "rec_kind (deref (the_record p)) \<noteq> ''response''"
    and "rec_data (deref (the_record p)) = None"
  shows "renderContent parseText p h =
           (Inr (Ansi (AnsiRenderSegment parseText)
                   (case rec_text (deref (the_record p)) of
                      None \<Rightarrow> '' ''
                    | Some s \<Rightarrow> if s = [] then '' '' else s)), h) \<and>
         \<not> is_Pre (projr (fst (renderContent parseText p h))) \<and>
         AnsiRenderSegment parseText sp =
           \<lparr>span_key = seg_key sp, span_style = seg_style sp,
            span_className = ''nuclide-console-default-text-colors'',
            span_children = parseText (seg_content sp)\<rparr>"
  using assms by (simp add: renderContent_def text_or_space_def AnsiRenderSegment_def Let_def)

theorem ansi_format_renders_ansi_witness:
  "renderContent sample_parseText (sample_props sample_record) [Map.empty] =
     (Inr (Ansi (AnsiRenderSegment sample_parseText) ''done''), [Map.empty])"
proof -
  have "rec_format (deref (the_record (sample_props sample_record))) = Some ''ansi''"
    and "rec_kind (deref (the_record (sample_props sample_record))) \<noteq> ''request''"
    and "rec_kind (deref (the_record (sample_props sample_record))) \<noteq> ''response''"
    and "rec_data (deref (the_record (sample_props sample_record))) = None"
    by (simp_all add: sample_props_def sample_record_def)
  from ansi_format_renders_ansi [OF this, of sample_parseText "[Map.empty]"]
  show ?thesis by (simp add: sample_props_def sample_record_def)
qed

section \<open>Icon and timestamp\<close>

text \<open>
  C8. The icon is chosen by kind first and by level second: kind request gives the request
  glyph and kind response the response glyph, whatever the level is; for any other kind,
  the levels info, success, warning and error give their glyphs and any other level, or
  none, gives no icon.
\<close>

theorem icon_by_kind_then_level:
  "(rec_kind r = ''request'' \<longrightarrow> getIconName r = Some ''chevron-right'') \<and>
   (rec_kind r = ''response'' \<longrightarrow> getIconName r = Some ''arrow-small-left'') \<and>
   (rec_kind r \<noteq> ''request'' \<and> rec_kind r \<noteq> ''response'' \<longrightarrow>
      (rec_level r = Some ''info'' \<longrightarrow> getIconName r = Some ''info'') \<and>
      (rec_level r = Some ''success'' \<longrightarrow> getIconName r = Some ''check'') \<and>
      (rec_level r = Some ''warning'' \<longrightarrow> getIconName r = Some ''alert'') \<and>
      (rec_level r = Some ''error'' \<longrightarrow> getIconName r = Some ''stop'') \<and>
      (rec_level r \<notin> {Some ''info'', Some ''success'', Some ''warning'', Some ''error''} \<longrightarrow>
         getIconName r = None))"
  by (simp add: getIconName_def)

theorem icon_by_kind_then_level_witness:
  "getIconName (sample_record\<lparr>rec_kind := ''request''\<rparr>) = Some ''chevron-right'' \<and>
   getIconName (sample_record\<lparr>rec_kind := ''response''\<rparr>) = Some ''arrow-small-left'' \<and>
   getIconName sample_record = Some ''stop'' \<and>
   getIconName (sample_record\<lparr>rec_level := None\<rparr>) = None \<and>
   getIconName (sample_record\<lparr>rec_level := Some ''debug''\<rparr>) = None"
  using icon_by_kind_then_level [of "sample_record\<lparr>rec_kind := ''request''\<rparr>"]
    icon_by_kind_then_level [of "sample_record\<lparr>rec_kind := ''response''\<rparr>"]
    icon_by_kind_then_level [of sample_record]
    icon_by_kind_then_level [of "sample_record\<lparr>rec_level := None\<rparr>"]
    icon_by_kind_then_level [of "sample_record\<lparr>rec_level := Some ''debug''\<rparr>"]
  by (simp add: sample_record_def)

text \<open>
  C7. When \<^verbatim>\<open>render\<close> returns a frame, its timestamp label is absent for a null timestamp;
  for a timestamp \<open>t\<close> it is the full date and time when \<open>now - t\<close> exceeds 86,400,000 ms
  and the time alone otherwise. So a timestamp 24 h and 1 ms old gets the full format, and
  one that is 24 h old, or 1 ms old, the time alone.
\<close>

theorem timestamp_label_by_age:
  assumes "render parseText now p h = (Inr fr, h1)"
  shows "(rec_timestamp (deref (the_record p)) = None \<longrightarrow> f_timestamp fr = None) \<and>
         (\<forall>t. rec_timestamp (deref (the_record p)) = Some t \<longrightarrow>
            f_timestamp fr =
              Some (if 86400000 < now - t then LocaleString t else LocaleTimeString t)) \<and>
         (rec_timestamp (deref (the_record p)) = Some (now - 86400001) \<longrightarrow>
            f_timestamp fr = Some (LocaleString (now - 86400001))) \<and>
         (rec_timestamp (deref (the_record p)) = Some (now - 86400000) \<longrightarrow>
            f_timestamp fr = Some (LocaleTimeString (now - 86400000))) \<and>
         (rec_timestamp (deref (the_record p)) = Some (now - 1) \<longrightarrow>
            f_timestamp fr = Some (LocaleTimeString (now - 1)))"
  using assms
  by (auto simp add: render_def renderedTimestamp_def ONE_DAY_def Let_def
      split: prod.splits sum.splits)

theorem timestamp_label_by_age_witness:
  "(\<exists>fr h1. render sample_parseText 86401001 (sample_props sample_record) [Map.empty] = (Inr fr, h1) \<and>
      f_timestamp fr = Some (LocaleString 1000)) \<and>
   (\<exists>fr h1. render sample_parseText 86401000 (sample_props sample_record) [Map.empty] = (Inr fr, h1) \<and>
      f_timestamp fr = Some (LocaleTimeString 1000)) \<and>
   (\<exists>fr h1. render sample_parseText 1001 (sample_props sample_record) [Map.empty] = (Inr fr, h1) \<and>
      f_timestamp fr = Some (LocaleTimeString 1000)) \<and>
   (\<exists>fr h1. render sample_parseText 1001
      (sample_props (sample_record\<lparr>rec_timestamp := None\<rparr>)) [Map.empty] = (Inr fr, h1) \<and>
      f_timestamp fr = None)"
proof -
  have r: "\<exists>fr h1. render sample_parseText now (sample_props (sample_record\<lparr>rec_timestamp := t\<rparr>))
      [Map.empty] = (Inr fr, h1)" for now t
    by (simp add: render_def renderContent_def sample_props_def sample_record_def Let_def)
  have s: "sample_record\<lparr>rec_timestamp := Some 1000\<rparr> = sample_record"
    by (simp add: sample_record_def)
  have t: "rec_timestamp (deref (the_record (sample_props (sample_record\<lparr>rec_timestamp := t\<rparr>)))) = t"
    for t by (simp add: sample_props_def)
  show ?thesis
  proof (intro conjI)
    from r [of 86401001 "Some 1000"] obtain fr h1 where
      "render sample_parseText 86401001 (sample_props sample_record) [Map.empty] = (Inr fr, h1)"
      unfolding s by blast
    then show "\<exists>fr h1. render sample_parseText 86401001 (sample_props sample_record) [Map.empty] = (Inr fr, h1) \<and>
      f_timestamp fr = Some (LocaleString 1000)"
      using timestamp_label_by_age [of sample_parseText 86401001 "sample_props sample_record" "[Map.empty]" fr h1]
        t [of "Some 1000"] unfolding s by simp
  next
    from r [of 86401000 "Some 1000"] obtain fr h1 where
      "render sample_parseText 86401000 (sample_props sample_record) [Map.empty] = (Inr fr, h1)"
      unfolding s by blast
    then show "\<exists>fr h1. render sample_parseText 86401000 (sample_props sample_record) [Map.empty] = (Inr fr, h1) \<and>
      f_timestamp fr = Some (LocaleTimeString 1000)"
      using timestamp_label_by_age [of sample_parseText 86401000 "sample_props sample_record" "[Map.empty]" fr h1]
        t [of "Some 1000"] unfolding s by simp
  next
    from r [of 1001 "Some 1000"] obtain fr h1 where
      "render sample_parseText 1001 (sample_props sample_record) [Map.empty] = (Inr fr, h1)"
      unfolding s by blast
    then show "\<exists>fr h1. render sample_parseText 1001 (sample_props sample_record) [Map.empty] = (Inr fr, h1) \<and>
      f_timestamp fr = Some (LocaleTimeString 1000)"
      using timestamp_label_by_age [of sample_parseText 1001 "sample_props sample_record" "[Map.empty]" fr h1]
        t [of "Some 1000"] unfolding s by simp
  next
    from r [of 1001 None] obtain fr h1 where
      "render sample_parseText 1001 (sample_props (sample_record\<lparr>rec_timestamp := None\<rparr>)) [Map.empty] = (Inr fr, h1)"
      by blast
    then show "\<exists>fr h1. render sample_parseText 1001
      (sample_props (sample_record\<lparr>rec_timestamp := None\<rparr>)) [Map.empty] = (Inr fr, h1) \<and>
      f_timestamp fr = None"
      using timestamp_label_by_age [of sample_parseText 1001 "sample_props (sample_record\<lparr>rec_timestamp := None\<rparr>)" "[Map.empty]" fr h1]
        t [of None] by simp
  qed
qed

section \<open>Nested values\<close>

lemmas eval_render_objects =
  render_objects_Cons render_object_def init_slot_def get_prop_def set_prop_def
  new_object_def expansionStateKey_def string_of_nat.simps digit_char_def getComponent_def
  renderNestedValueComponent_def renderContent_def render_def sample_props_def
  sample_record_def objects_record_def simple_object_def lazy_object_def no_source_def
  Let_def

text \<open>
  C9. The nested-value rendering throws, through the null assertion, exactly when the data
  is present with type objects and its objects sequence is null or undefined; it has not
  touched the store then. So it returns an element only if type objects implies that the
  sequence is present, and the content of every record of another kind than request (the
  kinds that reach this function when data is present) throws in the same way.
\<close>

theorem nested_value_throws_without_objects:
  fixes parseText :: "string \<Rightarrow> 'n"
  shows
    "((fst (renderNestedValueComponent p provider h :: (error + 'n element) \<times> heap)
        = Inl NullthrowsError) =
      (\<exists>d. rec_data (deref (the_record p)) = Some d \<and> data_type d = Some ''objects'' \<and>
           data_objects d = None)) \<and>
     (fst (renderNestedValueComponent p provider h :: (error + 'n element) \<times> heap)
        = Inl NullthrowsError \<longrightarrow>
      snd (renderNestedValueComponent p provider h :: (error + 'n element) \<times> heap) = h) \<and>
     ((\<exists>d. rec_data (deref (the_record p)) = Some d \<and> data_type d = Some ''objects'' \<and>
           data_objects d = None) \<and> rec_kind (deref (the_record p)) \<noteq> ''request'' \<longrightarrow>
      renderContent parseText p h = (Inl NullthrowsError, h) \<and>
      render parseText now p h = (Inl NullthrowsError, h))"
  by (auto simp add: renderNestedValueComponent_def renderContent_def render_def Let_def
      case_prod_beta split: option.splits)

theorem nested_value_throws_without_objects_witness:
  "renderNestedValueComponent (sample_props (objects_record None)) None [Map.empty] =
     (Inl NullthrowsError :: error + string list element, [Map.empty]) \<and>
   renderContent sample_parseText (sample_props (objects_record None)) [Map.empty] =
     (Inl NullthrowsError, [Map.empty]) \<and>
   fst (renderNestedValueComponent (sample_props (objects_record (Some []))) None [Map.empty]) =
     (Inr (MultipleObjects []) :: error + string list element)"
  using nested_value_throws_without_objects
    [of "sample_props (objects_record None)" None "[Map.empty]" sample_parseText 0]
    nested_value_throws_without_objects
    [of "sample_props (objects_record (Some []))" None "[Map.empty]" sample_parseText 0]
  by (simp add: eval_render_objects prod_eq_iff)

text \<open>
  C2. For a record whose data has type objects and a sequence of N objects, and an
  expansion-state reference that is valid in the store, the nested-value rendering returns
  the span of N children, the child at position i made from the object at position i. An
  object whose expression reference is 0 gives a simple value with no expression, whose
  evaluation result has the expression's value and the object's type, or text when that
  type is null. Every other object gives a lazy nested value with the object's
  description, type (the empty string by default) and expression, the fetch function of
  the source, the value component chosen by type, caching on, and as expansion state the
  entry of the expansion-state object under the key child followed by the decimal index,
  which is an object by then. Different indices have different keys.
\<close>

theorem objects_give_one_child_each:
  assumes "rec_data (deref (the_record p)) = Some d"
    and "data_type d = Some ''objects''"
    and "data_objects d = Some objs"
    and "expansionStateId p < length h"
  shows "\<exists>children h1.
           renderNestedValueComponent p provider h =
             (Inr (MultipleObjects (children :: 'n element list)), h1) \<and>
           length children = length objs \<and>
           (\<forall>i<length objs.
              (reference (obj_expression (objs ! i)) = 0 \<longrightarrow>
                 children ! i =
                   SimpleValue None
                     (ValueResult (case obj_type (objs ! i) of None \<Rightarrow> ''text'' | Some t \<Rightarrow> t)
                        (getValue (obj_expression (objs ! i))))) \<and>
              (reference (obj_expression (objs ! i)) \<noteq> 0 \<longrightarrow>
                 children ! i =
                   LazyNestedValue ''console-lazy-nested-value''
                     (ObjectResult (obj_description (objs ! i))
                        (case obj_type (objs ! i) of None \<Rightarrow> [] | Some t \<Rightarrow> t)
                        (obj_expression (objs ! i)))
                     (case provider of None \<Rightarrow> None | Some s \<Rightarrow> Some (getProperties s))
                     (getComponent (obj_type (objs ! i))) True
                     (get_prop h1 (expansionStateId p) (''child'' @ string_of_nat i)) \<and>
                 truthy (get_prop h1 (expansionStateId p) (''child'' @ string_of_nat i)))) \<and>
           (\<forall>i j. i \<noteq> j \<longrightarrow> ''child'' @ string_of_nat i \<noteq> ''child'' @ string_of_nat j)"
proof -
  let ?f = "case provider of None \<Rightarrow> None | Some s \<Rightarrow> Some (getProperties s)"
  let ?e = "expansionStateId p"
  let ?children = "fst (render_objects ?e ?f 0 objs ([] :: 'n element list) h)"
  let ?h1 = "snd (render_objects ?e ?f 0 objs ([] :: 'n element list) h)"
  have r: "renderNestedValueComponent p provider h = (Inr (MultipleObjects ?children), ?h1)"
    using assms(1-3) by (rule renderNestedValueComponent_objects)
  have len: "length ?children = length objs"
    by (simp add: render_objects_children_length)
  have simple: "?children ! i =
      SimpleValue None
        (ValueResult (case obj_type (objs ! i) of None \<Rightarrow> ''text'' | Some t \<Rightarrow> t)
           (getValue (obj_expression (objs ! i))))"
    if "i < length objs" "reference (obj_expression (objs ! i)) = 0" for i
    using render_objects_child_simple [OF that, of ?e ?f 0 "[]" h] by simp
  have lazy: "?children ! i =
      LazyNestedValue ''console-lazy-nested-value''
        (ObjectResult (obj_description (objs ! i))
           (case obj_type (objs ! i) of None \<Rightarrow> [] | Some t \<Rightarrow> t) (obj_expression (objs ! i)))
        ?f (getComponent (obj_type (objs ! i))) True
        (get_prop ?h1 ?e (''child'' @ string_of_nat i))"
    if "i < length objs" "reference (obj_expression (objs ! i)) \<noteq> 0" for i
    using render_objects_child_lazy [OF assms(4) that, of ?f 0 "[]"]
    by (simp add: expansionStateKey_def)
  have slot: "truthy (get_prop ?h1 ?e (''child'' @ string_of_nat i))" if "i < length objs" for i
    using render_objects_slot_truthy [OF assms(4) that, of ?f 0 "[] :: 'n element list"]
    by (simp add: expansionStateKey_def)
  have keys: "''child'' @ string_of_nat i \<noteq> ''child'' @ string_of_nat j" if "i \<noteq> j" for i j
    using that by (auto dest: string_of_nat_inj)
  show ?thesis
    using r len simple lazy slot keys by blast
qed

theorem objects_give_one_child_each_witness:
  "\<exists>children h1.
     renderNestedValueComponent
       (sample_props (objects_record (Some [simple_object, lazy_object]))) None [Map.empty] =
       (Inr (MultipleObjects (children :: string list element list)), h1) \<and>
     length children = 2 \<and>
     children ! 0 = SimpleValue None (ValueResult ''text'' ''42'') \<and>
     children ! 1 =
       LazyNestedValue ''console-lazy-nested-value''
         (ObjectResult (Some ''Object'') ''object'' \<lparr>reference = 5, getValue = []\<rparr>)
         None SimpleValueComponent True (get_prop h1 0 ''child1'') \<and>
     truthy (get_prop h1 0 ''child1'')"
proof -
  let ?objs = "[simple_object, lazy_object]"
  let ?d = "\<lparr>data_type = Some ''objects'', data_objects = Some ?objs\<rparr>"
  let ?p = "sample_props (objects_record (Some ?objs))"
  have a: "rec_data (deref (the_record ?p)) = Some ?d"
    by (simp add: sample_props_def objects_record_def)
  have b: "data_type ?d = Some ''objects''"
    by simp
  have c: "data_objects ?d = Some ?objs"
    by simp
  have d: "expansionStateId ?p < length [Map.empty :: jsobject]"
    by (simp add: sample_props_def)
  have e: "expansionStateId ?p = 0"
    by (simp add: sample_props_def)
  have k: "string_of_nat (Suc 0) = ''1''"
    by (simp add: string_of_nat.simps digit_char_def)
  from objects_give_one_child_each [OF a b c d, of None, where ?'n = "string list"]
  obtain children :: "string list element list" and h1 where
    r: "renderNestedValueComponent ?p None [Map.empty] = (Inr (MultipleObjects children), h1)"
    and len: "length children = length ?objs"
    and each: "\<forall>i<length ?objs.
      (reference (obj_expression (?objs ! i)) = 0 \<longrightarrow>
         children ! i =
           SimpleValue None
             (ValueResult (case obj_type (?objs ! i) of None \<Rightarrow> ''text'' | Some t \<Rightarrow> t)
                (getValue (obj_expression (?objs ! i))))) \<and>
      (reference (obj_expression (?objs ! i)) \<noteq> 0 \<longrightarrow>
         children ! i =
           LazyNestedValue ''console-lazy-nested-value''
             (ObjectResult (obj_description (?objs ! i))
                (case obj_type (?objs ! i) of None \<Rightarrow> [] | Some t \<Rightarrow> t)
                (obj_expression (?objs ! i)))
             (case None :: source option of None \<Rightarrow> None | Some s \<Rightarrow> Some (getProperties s))
             (getComponent (obj_type (?objs ! i))) True
             (get_prop h1 (expansionStateId ?p) (''child'' @ string_of_nat i)) \<and>
         truthy (get_prop h1 (expansionStateId ?p) (''child'' @ string_of_nat i)))"
    by (elim exE conjE) (rule that)
  from each [THEN spec, of 0] have "children ! 0 = SimpleValue None (ValueResult ''text'' ''42'')"
    by (simp add: simple_object_def)
  moreover from each [THEN spec, of 1] have "children ! 1 =
       LazyNestedValue ''console-lazy-nested-value''
         (ObjectResult (Some ''Object'') ''object'' \<lparr>reference = 5, getValue = []\<rparr>)
         None SimpleValueComponent True (get_prop h1 0 ''child1'') \<and>
     truthy (get_prop h1 0 ''child1'')"
    unfolding e by (simp add: lazy_object_def getComponent_def k)
  ultimately show ?thesis
    using r len by simp
qed

section \<open>The expansion state\<close>

text \<open>
  C4, as stated, fails: an entry that exists and holds null (any falsy value) under a
  child key is replaced by a new object.
\<close>

theorem falsy_entry_replaced_counterexample:
  "(null_slot_store ! expansionStateId (sample_props (objects_record (Some [lazy_object]))))
     ''child0'' = Some JNull \<and>
   (snd (render sample_parseText 0 (sample_props (objects_record (Some [lazy_object])))
           null_slot_store) !
      expansionStateId (sample_props (objects_record (Some [lazy_object])))) ''child0'' =
     Some (JRef 1)"
  by (simp add: eval_render_objects null_slot_store_def case_prod_beta)

text \<open>
  C4, amended. For every render, with a valid expansion-state reference: no object of the
  store is removed and every other object is as before; no key of the expansion-state
  object is deleted; an entry that holds a truthy value is never replaced; and an entry
  that changed is under a key child followed by a decimal index, was missing or held a
  falsy value, and now refers to an object that did not exist before and has no property.
  The expansion-state reference itself is a prop, which a render cannot assign.
\<close>

theorem expansion_state_only_initialised:
  fixes parseText :: "string \<Rightarrow> 'n"
  assumes "expansionStateId p < length h"
  shows "\<exists>h1. snd (render parseText now p h) = h1 \<and>
           length h \<le> length h1 \<and>
           (\<forall>a<length h. a \<noteq> expansionStateId p \<longrightarrow> h1 ! a = h ! a) \<and>
           dom (h ! expansionStateId p) \<subseteq> dom (h1 ! expansionStateId p) \<and>
           (\<forall>k. truthy (get_prop h (expansionStateId p) k) \<longrightarrow>
                (h1 ! expansionStateId p) k = (h ! expansionStateId p) k) \<and>
           (\<forall>k. (h1 ! expansionStateId p) k \<noteq> (h ! expansionStateId p) k \<longrightarrow>
                \<not> truthy (get_prop h (expansionStateId p) k) \<and>
                (\<exists>i. k = ''child'' @ string_of_nat i) \<and>
                (\<exists>a. (h1 ! expansionStateId p) k = Some (JRef a) \<and> length h \<le> a \<and>
                     a < length h1 \<and> h1 ! a = Map.empty))"
proof -
  let ?e = "expansionStateId p"
  let ?h1 = "snd (render parseText now p h)"
  have "?h1 = h \<or> (\<exists>f objs. ?h1 = snd (render_objects ?e f 0 objs ([] :: 'n element list) h))"
    using renderContent_store [of parseText p h] by (simp add: render_store)
  then show ?thesis
  proof
    assume "?h1 = h"
    then show ?thesis by simp
  next
    assume "\<exists>f objs. ?h1 = snd (render_objects ?e f 0 objs ([] :: 'n element list) h)"
    then obtain f objs where
      h1: "?h1 = snd (render_objects ?e f 0 objs ([] :: 'n element list) h)"
      by blast
    have len: "length h \<le> length ?h1"
      unfolding h1 by (rule render_objects_heap_length)
    have other: "\<forall>a<length h. a \<noteq> ?e \<longrightarrow> ?h1 ! a = h ! a"
      unfolding h1 by (simp add: render_objects_other_object)
    have dom: "dom (h ! ?e) \<subseteq> dom (?h1 ! ?e)"
      unfolding h1 using assms by (rule render_objects_dom)
    have kept: "\<forall>k. truthy (get_prop h ?e k) \<longrightarrow> (?h1 ! ?e) k = (h ! ?e) k"
      unfolding h1 using assms by (simp add: render_objects_truthy_kept)
    have changed: "\<not> truthy (get_prop h ?e k) \<and> (\<exists>i. k = ''child'' @ string_of_nat i) \<and>
        (\<exists>a. (?h1 ! ?e) k = Some (JRef a) \<and> length h \<le> a \<and> a < length ?h1 \<and>
             ?h1 ! a = Map.empty)"
      if "(?h1 ! ?e) k \<noteq> (h ! ?e) k" for k
    proof -
      from that have c: "(snd (render_objects ?e f 0 objs ([] :: 'n element list) h) ! ?e) k
          \<noteq> (h ! ?e) k"
        unfolding h1 .
      from render_objects_changed_key [OF assms c]
      have "\<not> truthy (get_prop h ?e k)" and "\<exists>i. k = ''child'' @ string_of_nat i"
        by (auto simp add: expansionStateKey_def)
      moreover from render_objects_changed [OF assms c]
      have "\<exists>a. (?h1 ! ?e) k = Some (JRef a) \<and> length h \<le> a \<and> a < length ?h1 \<and>
          ?h1 ! a = Map.empty"
        unfolding h1 .
      ultimately show ?thesis by blast
    qed
    show ?thesis
      using len other dom kept changed by blast
  qed
qed

theorem expansion_state_only_initialised_witness:
  "(snd (render sample_parseText 0
           (sample_props (objects_record (Some [simple_object, lazy_object])))
           kept_slot_store) ! 0) ''child0'' = Some (JRef 1) \<and>
   snd (render sample_parseText 0
          (sample_props (objects_record (Some [simple_object, lazy_object])))
          kept_slot_store) =
     [[''child0'' \<mapsto> JRef 1, ''child1'' \<mapsto> JRef 2], Map.empty, Map.empty]"
proof -
  let ?p = "sample_props (objects_record (Some [simple_object, lazy_object]))"
  have e: "expansionStateId ?p = 0"
    by (simp add: sample_props_def)
  have v: "expansionStateId ?p < length kept_slot_store"
    by (simp add: sample_props_def kept_slot_store_def)
  have t: "truthy (get_prop kept_slot_store 0 ''child0'')"
    by (simp add: get_prop_def kept_slot_store_def)
  from expansion_state_only_initialised [OF v, of sample_parseText 0] t
  have "(snd (render sample_parseText 0 ?p kept_slot_store) ! 0) ''child0'' =
      (kept_slot_store ! 0) ''child0''"
    unfolding e by blast
  then have "(snd (render sample_parseText 0 ?p kept_slot_store) ! 0) ''child0'' = Some (JRef 1)"
    by (simp add: kept_slot_store_def)
  moreover have "snd (render sample_parseText 0 ?p kept_slot_store) =
      [[''child0'' \<mapsto> JRef 1, ''child1'' \<mapsto> JRef 2], Map.empty, Map.empty]"
    by (simp add: eval_render_objects kept_slot_store_def case_prod_beta numeral_2_eq_2)
  ultimately show ?thesis by simp
qed

section \<open>Height reports\<close>

text \<open>
  C10. Whichever way the measurement is started (at mount, after an update whose record
  reference differs, or by the debounced callback when its timer is due): when the wrapper
  element is null, \<^verbatim>\<open>onHeightChange\<close> is not invoked; when \<^verbatim>\<open>onHeightChange\<close> is invoked, it
  is invoked once, with the component's current record and the measured height of the
  wrapper element.
\<close>

theorem height_report_needs_wrapper:
  "(this_wrapper c = None \<longrightarrow>
      measureAndNotifyHeight c calls = calls \<and>
      componentDidMount c calls = calls \<and>
      componentDidUpdate c prevProps calls = calls \<and>
      snd (timer_tick now c calls) = calls) \<and>
   (\<forall>w. this_wrapper c = Some w \<longrightarrow>
      measureAndNotifyHeight c calls =
        calls @ [\<lparr>hc_callback = onHeightChange (this_props c),
                   hc_record = the_record (this_props c), hc_height = offsetHeight w\<rparr>] \<and>
      componentDidMount c calls = measureAndNotifyHeight c calls \<and>
      componentDidUpdate c prevProps calls =
        (if addr (the_record (this_props c)) \<noteq> addr (the_record prevProps)
         then measureAndNotifyHeight c calls else calls) \<and>
      snd (timer_tick now c calls) =
        (if due now (this_debounced c) then measureAndNotifyHeight c calls else calls))"
  by (simp add: measureAndNotifyHeight_def componentDidMount_def componentDidUpdate_def
      timer_tick_def strict_eq_def)

theorem height_report_needs_wrapper_witness:
  "componentDidMount (constructor (sample_props sample_record)) [] = [] \<and>
   snd (timer_tick 10 (onMeasurementsChanged 0 (constructor (sample_props sample_record))) []) = [] \<and>
   componentDidMount
     (handleRecordWrapper (constructor (sample_props sample_record)) (Some sample_element)) [] =
     [\<lparr>hc_callback = 9, hc_record = Ptr 1 sample_record, hc_height = 20\<rparr>] \<and>
   snd (timer_tick 10
     (onMeasurementsChanged 0
        (handleRecordWrapper (constructor (sample_props sample_record)) (Some sample_element))) []) =
     [\<lparr>hc_callback = 9, hc_record = Ptr 1 sample_record, hc_height = 20\<rparr>]"
  using height_report_needs_wrapper [of "constructor (sample_props sample_record)" "[]"
      "sample_props sample_record" 10]
    height_report_needs_wrapper
      [of "onMeasurementsChanged 0 (constructor (sample_props sample_record))" "[]"
        "sample_props sample_record" 10]
    height_report_needs_wrapper
      [of "handleRecordWrapper (constructor (sample_props sample_record)) (Some sample_element)"
        "[]" "sample_props sample_record" 10]
    height_report_needs_wrapper
      [of "onMeasurementsChanged 0
             (handleRecordWrapper (constructor (sample_props sample_record)) (Some sample_element))"
        "[]" "sample_props sample_record" 10]
  by (simp add: constructor_def handleRecordWrapper_def onMeasurementsChanged_def
      sample_props_def sample_element_def debounce_def invoke_def due_def)

text \<open>
  C3. An update whose next props are shallowly equal to the current props makes
  \<^verbatim>\<open>shouldComponentUpdate\<close> answer no, so the update stores the props and nothing else: no
  render, no write to the store, no height report. In particular, after a mount that
  reported the height once, two updates with the same record reference and the other props
  unchanged leave the reports at that one.
\<close>

theorem shallow_equal_update_skipped:
  fixes parseText :: "string \<Rightarrow> 'n"
  shows
    "(shallowEqual (this_props c) nextProps \<longrightarrow>
        \<not> shouldComponentUpdate c nextProps \<and>
        updateComponent parseText now c nextProps e = (Inr (c\<lparr>this_props := nextProps\<rparr>), e)) \<and>
     (mountComponent parseText now0 el p e0 = (Inr c0, e1) \<and> shallowEqual p p1 \<and>
      shallowEqual p1 p2 \<longrightarrow>
        height_calls e1 =
          height_calls e0 @ [\<lparr>hc_callback = onHeightChange p, hc_record = the_record p,
                               hc_height = offsetHeight el\<rparr>] \<and>
        updateComponent parseText now1 c0 p1 e1 = (Inr (c0\<lparr>this_props := p1\<rparr>), e1) \<and>
        updateComponent parseText now2 (c0\<lparr>this_props := p1\<rparr>) p2 e1 =
          (Inr (c0\<lparr>this_props := p2\<rparr>), e1))"
proof -
  have skip: "\<not> shouldComponentUpdate c nextProps \<and>
      updateComponent parseText now c nextProps e = (Inr (c\<lparr>this_props := nextProps\<rparr>), e)"
    if "shallowEqual (this_props c) nextProps" for c nextProps now e
    using that by (simp add: shouldComponentUpdate_def updateComponent_def)
  have mounted: "this_props c0 = p \<and>
      height_calls e1 =
        height_calls e0 @ [\<lparr>hc_callback = onHeightChange p, hc_record = the_record p,
                             hc_height = offsetHeight el\<rparr>]"
    if "mountComponent parseText now0 el p e0 = (Inr c0, e1)"
    using that
    by (auto simp add: mountComponent_def constructor_def handleRecordWrapper_def
        componentDidMount_def measureAndNotifyHeight_def Let_def
        split: prod.splits sum.splits)
  show ?thesis
  proof (intro conjI impI)
    assume "shallowEqual (this_props c) nextProps"
    then show "\<not> shouldComponentUpdate c nextProps"
      and "updateComponent parseText now c nextProps e = (Inr (c\<lparr>this_props := nextProps\<rparr>), e)"
      using skip by blast+
  next
    assume a: "mountComponent parseText now0 el p e0 = (Inr c0, e1) \<and> shallowEqual p p1 \<and>
      shallowEqual p1 p2"
    then have m: "this_props c0 = p" using mounted by blast
    from a show "height_calls e1 =
        height_calls e0 @ [\<lparr>hc_callback = onHeightChange p, hc_record = the_record p,
                             hc_height = offsetHeight el\<rparr>]"
      using mounted by blast
    from a m show "updateComponent parseText now1 c0 p1 e1 = (Inr (c0\<lparr>this_props := p1\<rparr>), e1)"
      using skip [of c0 p1 now1 e1] by simp
    from a show "updateComponent parseText now2 (c0\<lparr>this_props := p1\<rparr>) p2 e1 =
        (Inr (c0\<lparr>this_props := p2\<rparr>), e1)"
      using skip [of "c0\<lparr>this_props := p1\<rparr>" p2 now2 e1] by simp
  qed
qed

theorem shallow_equal_update_skipped_witness:
  "\<exists>c0 e1.
     mountComponent sample_parseText 0 sample_element (sample_props sample_record) empty_env =
       (Inr c0, e1) \<and>
     height_calls e1 = [\<lparr>hc_callback = 9, hc_record = Ptr 1 sample_record, hc_height = 20\<rparr>] \<and>
     render_count e1 = 1 \<and>
     updateComponent sample_parseText 5 c0 (sample_props sample_record) e1 = (Inr c0, e1) \<and>
     updateComponent sample_parseText 9 c0 (sample_props sample_record) e1 = (Inr c0, e1)"
proof -
  let ?p = "sample_props sample_record"
  let ?c0 = "handleRecordWrapper (constructor ?p) (Some sample_element)"
  let ?e1 = "empty_env\<lparr>store := [Map.empty],
    height_calls := [\<lparr>hc_callback = 9, hc_record = Ptr 1 sample_record, hc_height = 20\<rparr>],
    render_count := Suc 0\<rparr>"
  have m: "mountComponent sample_parseText 0 sample_element ?p empty_env = (Inr ?c0, ?e1)"
    by (simp add: mountComponent_def render_def renderContent_def componentDidMount_def
        measureAndNotifyHeight_def handleRecordWrapper_def constructor_def sample_props_def
        sample_record_def sample_element_def empty_env_def Let_def)
  have s: "shallowEqual ?p ?p"
    by (simp add: shallowEqual_def strict_eq_def)
  have c: "?c0\<lparr>this_props := ?p\<rparr> = ?c0"
    by (simp add: handleRecordWrapper_def constructor_def)
  from shallow_equal_update_skipped
    [of ?c0 ?p sample_parseText 0 ?e1 0 sample_element ?p empty_env ?c0 ?e1 ?p ?p 5 9] m s
  have "updateComponent sample_parseText 5 ?c0 ?p ?e1 = (Inr ?c0, ?e1)"
    and "updateComponent sample_parseText 9 ?c0 ?p ?e1 = (Inr ?c0, ?e1)"
    unfolding c by blast+
  with m show ?thesis
    by (intro exI [of _ ?c0] exI [of _ ?e1]) (simp add: empty_env_def)
qed

section \<open>Teardown\<close>

text \<open>
  C6. \<^verbatim>\<open>componentWillUnmount\<close> disposes the debounced function that the constructor made, so
  no invocation is pending afterwards, also when the measurement signal had just armed the
  timer; whatever timer ticks follow the teardown, the callback is not invoked and the
  height reports stay as they were.
\<close>

theorem no_height_report_after_unmount:
  "this_debounced (constructor p) = debounce 10 \<and>
   pending (this_debounced (componentWillUnmount c)) = None \<and>
   timer_ticks ts (componentWillUnmount c) calls = (componentWillUnmount c, calls) \<and>
   timer_ticks ts (componentWillUnmount (onMeasurementsChanged t c)) calls =
     (componentWillUnmount (onMeasurementsChanged t c), calls) \<and>
   timer_ticks ts (unmountComponent c) calls = (unmountComponent c, calls)"
proof -
  have idle: "timer_ticks ts d calls = (d, calls)" if "pending (this_debounced d) = None" for d
    using that by (induction ts) (simp_all add: timer_tick_def due_def)
  have gone: "pending (this_debounced (componentWillUnmount d)) = None" for d
    by (simp add: componentWillUnmount_def dispose_def)
  have gone': "pending (this_debounced (unmountComponent d)) = None" for d
    by (simp add: unmountComponent_def handleRecordWrapper_def componentWillUnmount_def
        dispose_def)
  show ?thesis
    using idle [OF gone] idle [OF gone'] gone by (simp add: constructor_def)
qed

theorem no_height_report_after_unmount_witness:
  "timer_ticks [5, 10, 20]
     (componentWillUnmount
        (onMeasurementsChanged 0
           (handleRecordWrapper (constructor (sample_props sample_record))
              (Some sample_element)))) [] =
   (componentWillUnmount
      (onMeasurementsChanged 0
         (handleRecordWrapper (constructor (sample_props sample_record))
            (Some sample_element))), [])"
  using no_height_report_after_unmount
    [of "sample_props sample_record"
      "onMeasurementsChanged 0
         (handleRecordWrapper (constructor (sample_props sample_record)) (Some sample_element))"
      "[5, 10, 20]" "[]" 0]
  by simp

text \<open>While the component is mounted, the armed timer does fire and reports the height.\<close>

lemma debounced_report_while_mounted:
  "timer_ticks [5, 10]
     (onMeasurementsChanged 0
        (handleRecordWrapper (constructor (sample_props sample_record)) (Some sample_element))) [] =
   (handleRecordWrapper (constructor (sample_props sample_record)) (Some sample_element)
      \<lparr>this_debounced := \<lparr>wait = 10, pending = None, invocations = 1\<rparr>\<rparr>,
    [\<lparr>hc_callback = 9, hc_record = Ptr 1 sample_record, hc_height = 20\<rparr>])"
  by (simp add: timer_tick_def due_def fired_def invoke_def onMeasurementsChanged_def
      handleRecordWrapper_def constructor_def debounce_def measureAndNotifyHeight_def
      sample_props_def sample_element_def)

end
